theory Spec2Isabelle
  imports Complex_Main
begin

section \<open>JavaScript numbers\<close>

text \<open>
  Every numeric field of the backend (\<open>amount\<close>, \<open>monthlyLimit\<close>, \<open>month\<close>,
  \<open>year\<close>) has the TypeScript type \<open>number\<close>, an IEEE 754 double: a finite
  value, negative zero, one of the two infinities, or not-a-number. \<open>Fin x\<close> is
  the finite double of value \<open>x\<close> (\<open>Fin 0\<close> is positive zero); the numbers a
  program holds are those with \<open>x\<close> representable. The arithmetic below follows
  the case tables of the language for \<open>+\<close>, \<open>-\<close>, \<open>*\<close>, \<open>/\<close> and
  \<open>===\<close>, and rounds every finite result to the nearest double.
\<close>

datatype number = Fin real | NegZero | Infinity | NegInfinity | NaN

fun isZero :: "number \<Rightarrow> bool" where
  "isZero (Fin x) = (x = 0)"
| "isZero NegZero = True"
| "isZero _ = False"

fun isInfinite :: "number \<Rightarrow> bool" where
  "isInfinite Infinity = True"
| "isInfinite NegInfinity = True"
| "isInfinite _ = False"

fun isFinite :: "number \<Rightarrow> bool" where
  "isFinite (Fin x) = True"
| "isFinite NegZero = True"
| "isFinite _ = False"

fun signbit :: "number \<Rightarrow> bool" where
  "signbit (Fin x) = (x < 0)"
| "signbit NegZero = True"
| "signbit NegInfinity = True"
| "signbit _ = False"

fun valueOf :: "number \<Rightarrow> real" where
  "valueOf (Fin x) = x"
| "valueOf _ = 0"

definition signedZero :: "bool \<Rightarrow> number" where
  "signedZero s = (if s then NegZero else Fin 0)"

definition signedInfinity :: "bool \<Rightarrow> number" where
  "signedInfinity s = (if s then NegInfinity else Infinity)"

text \<open>
  Rounding to the nearest double, ties to even. \<open>binade n r\<close> is the exponent
  \<open>e\<close> with \<open>2^e \<le> r < 2^(e+1)\<close>, found by at most \<open>n\<close> halvings or
  doublings of a positive \<open>r\<close>; 1100 steps reach every exponent a double can
  have. The exponent is at least -1022 (below that the doubles are equally
  spaced), a double has 53 significant bits, so the spacing at exponent \<open>e\<close> is
  \<open>2^(e-52)\<close>; a result of magnitude \<open>2^1024\<close> or more is an infinity, and a
  result that rounds to nothing is a zero with the sign of the exact value.
\<close>

fun binade :: "nat \<Rightarrow> real \<Rightarrow> int" where
  "binade 0 r = 0"
| "binade (Suc n) r =
     (if 2 \<le> r then binade n (r / 2) + 1
      else if r < 1 then binade n (2 * r) - 1
      else 0)"

definition roundHalfEven :: "real \<Rightarrow> int" where
  "roundHalfEven x =
     (let f = \<lfloor>x\<rfloor> in
      if x - of_int f < 1 / 2 then f
      else if 1 / 2 < x - of_int f then f + 1
      else if even f then f else f + 1)"

definition roundDouble :: "real \<Rightarrow> number" where
  "roundDouble r =
     (if r = 0 then Fin 0
      else
        (let a = \<bar>r\<bar>;
             e = max (binade 1100 a) (- 1022);
             ulp = 2 powi (e - 52);
             n = roundHalfEven (a / ulp);
             v = of_int n * ulp
         in if 2 powi 1024 \<le> v then signedInfinity (r < 0)
            else if n = 0 then signedZero (r < 0)
            else Fin (if r < 0 then - v else v)))"

text \<open>
  The number that a decimal literal, or a number in a JSON text, of value \<open>r\<close>
  denotes: \<open>0.1\<close> in a program is \<open>literal (1 / 10)\<close>, the double nearest to one
  tenth, and not \<open>Fin (1 / 10)\<close>. Integers of magnitude below \<open>2^53\<close> denote themselves.
\<close>

definition literal :: "real \<Rightarrow> number" where
  "literal r = roundDouble r"

fun js_neg :: "number \<Rightarrow> number" where
  "js_neg (Fin x) = (if x = 0 then NegZero else Fin (- x))"
| "js_neg NegZero = Fin 0"
| "js_neg Infinity = NegInfinity"
| "js_neg NegInfinity = Infinity"
| "js_neg NaN = NaN"

fun js_add :: "number \<Rightarrow> number \<Rightarrow> number" where
  "js_add NaN b = NaN"
| "js_add a NaN = NaN"
| "js_add Infinity NegInfinity = NaN"
| "js_add NegInfinity Infinity = NaN"
| "js_add Infinity b = Infinity"
| "js_add a Infinity = Infinity"
| "js_add NegInfinity b = NegInfinity"
| "js_add a NegInfinity = NegInfinity"
| "js_add NegZero NegZero = NegZero"
| "js_add NegZero (Fin y) = Fin y"
| "js_add (Fin x) NegZero = Fin x"
| "js_add (Fin x) (Fin y) = roundDouble (x + y)"

definition js_sub :: "number \<Rightarrow> number \<Rightarrow> number" where
  "js_sub a b = js_add a (js_neg b)"

definition js_mul :: "number \<Rightarrow> number \<Rightarrow> number" where
  "js_mul a b =
     (if a = NaN \<or> b = NaN then NaN
      else if isInfinite a \<or> isInfinite b then
        (if isZero a \<or> isZero b then NaN
         else signedInfinity (signbit a \<noteq> signbit b))
      else if isZero a \<or> isZero b then signedZero (signbit a \<noteq> signbit b)
      else roundDouble (valueOf a * valueOf b))"

definition js_div :: "number \<Rightarrow> number \<Rightarrow> number" where
  "js_div a b =
     (if a = NaN \<or> b = NaN then NaN
      else if isInfinite a then
        (if isInfinite b then NaN else signedInfinity (signbit a \<noteq> signbit b))
      else if isInfinite b then signedZero (signbit a \<noteq> signbit b)
      else if isZero b then
        (if isZero a then NaN else signedInfinity (signbit a \<noteq> signbit b))
      else if isZero a then signedZero (signbit a \<noteq> signbit b)
      else roundDouble (valueOf a / valueOf b))"

text \<open>Strict equality \<open>===\<close> on numbers: not-a-number equals nothing, the two zeros are equal.\<close>

definition js_strict_eq :: "number \<Rightarrow> number \<Rightarrow> bool" where
  "js_strict_eq a b =
     (if a = NaN \<or> b = NaN then False
      else if isZero a \<and> isZero b then True
      else a = b)"

text \<open>The nullish coalescing operator \<open>a ?? b\<close>; an absent, undefined or null operand is \<open>None\<close>.\<close>

definition nullish :: "'a option \<Rightarrow> 'a \<Rightarrow> 'a" where
  "nullish a b = (case a of None \<Rightarrow> b | Some v \<Rightarrow> v)"

section \<open>Dates\<close>

text \<open>
  The repository reads a \<open>Date\<close> only through \<open>getMonth()\<close> and \<open>getFullYear()\<close>,
  which return the fields of the local calendar date, or not-a-number for an
  invalid date. A valid date is represented by its local calendar fields: year,
  month, day of the month and the milliseconds elapsed within that day.
\<close>

datatype calendar_month =
  January | February | March | April | May | June
  | July | August | September | October | November | December

fun monthIndex :: "calendar_month \<Rightarrow> nat" where
  "monthIndex January = 0"
| "monthIndex February = 1"
| "monthIndex March = 2"
| "monthIndex April = 3"
| "monthIndex May = 4"
| "monthIndex June = 5"
| "monthIndex July = 6"
| "monthIndex August = 7"
| "monthIndex September = 8"
| "monthIndex October = 9"
| "monthIndex November = 10"
| "monthIndex December = 11"

datatype date = InvalidDate | LocalDate int calendar_month nat nat

fun getMonth :: "date \<Rightarrow> number" where
  "getMonth InvalidDate = NaN"
| "getMonth (LocalDate y m d t) = Fin (real (monthIndex m))"

fun getFullYear :: "date \<Rightarrow> number" where
  "getFullYear InvalidDate = NaN"
| "getFullYear (LocalDate y m d t) = Fin (real_of_int y)"

section \<open>Entities\<close>

text \<open>
  \<open>CreateExpenseDto\<close> is \<open>Omit<Expense, 'id'>\<close>; \<open>Expense\<close> extends it with the
  identifier (field \<open>id\<close> of the source, here \<open>expenseId\<close>).
\<close>

record CreateExpenseDto =
  amount :: number
  description :: string
  category :: string
  date :: date
  userId :: string

record Expense = CreateExpenseDto +
  expenseId :: string

text \<open>\<open>Partial<Expense>\<close>: every field of \<open>Expense\<close>, each optional.\<close>

record PartialExpense =
  partialId :: "string option"
  partialAmount :: "number option"
  partialDescription :: "string option"
  partialCategory :: "string option"
  partialDate :: "date option"
  partialUserId :: "string option"

datatype error = Error string

section \<open>InMemoryExpenseRepository\<close>

text \<open>The private array \<open>expenses\<close> is the state; each method takes it and returns what it leaves.\<close>

type_synonym expenses = "Expense list"

fun findIndex :: "('a \<Rightarrow> bool) \<Rightarrow> 'a list \<Rightarrow> nat option" where
  "findIndex P [] = None"
| "findIndex P (x # xs) = (if P x then Some 0 else map_option Suc (findIndex P xs))"

definition expense_findAll :: "expenses \<Rightarrow> string \<Rightarrow> Expense list" where
  "expense_findAll es u = filter (\<lambda>expense. userId expense = u) es"

definition expense_findById :: "expenses \<Rightarrow> string \<Rightarrow> Expense option" where
  "expense_findById es i = find (\<lambda>expense. expenseId expense = i) es"

definition expense_findByMonth :: "expenses \<Rightarrow> string \<Rightarrow> number \<Rightarrow> number \<Rightarrow> Expense list" where
  "expense_findByMonth es u m y =
     filter (\<lambda>expense.
        userId expense = u \<and>
        js_strict_eq (js_add (getMonth (date expense)) (Fin 1)) m \<and>
        js_strict_eq (getFullYear (date expense)) y) es"

text \<open>\<open>create\<close>; the first argument is the value \<open>randomUUID()\<close> returns.\<close>

definition expense_create :: "string \<Rightarrow> expenses \<Rightarrow> CreateExpenseDto \<Rightarrow> Expense \<times> expenses" where
  "expense_create uuid es expense =
     (let newExpense =
        \<lparr> amount = amount expense, description = description expense,
          category = category expense, date = date expense,
          userId = userId expense, expenseId = uuid \<rparr>
      in (newExpense, es @ [newExpense]))"

definition expense_update ::
  "expenses \<Rightarrow> string \<Rightarrow> PartialExpense \<Rightarrow> (error + Expense) \<times> expenses" where
  "expense_update es i expense =
     (case findIndex (\<lambda>e. expenseId e = i) es of
        None \<Rightarrow> (Inl (Error ''Expense not found''), es)
      | Some index \<Rightarrow>
          (let updated =
             \<lparr> amount = nullish (partialAmount expense) (amount (es ! index)),
               description = nullish (partialDescription expense) (description (es ! index)),
               category = nullish (partialCategory expense) (category (es ! index)),
               date = nullish (partialDate expense) (date (es ! index)),
               userId = nullish (partialUserId expense) (userId (es ! index)),
               expenseId = i \<rparr>
           in (Inr updated, es[index := updated])))"

definition expense_delete :: "expenses \<Rightarrow> string \<Rightarrow> expenses" where
  "expense_delete es i = filter (\<lambda>expense. expenseId expense \<noteq> i) es"

section \<open>SpendingLimit and InMemorySpendingLimitRepository\<close>

text \<open>
  The body of \<open>POST /spending-limits\<close> is \<open>Omit<SpendingLimit, 'id'>\<close>;
  \<open>SpendingLimit\<close> extends it with the identifier. The fields \<open>id\<close> and
  \<open>userId\<close> of the source are \<open>limitId\<close> and \<open>limitUserId\<close> here.
\<close>

record CreateLimitDto =
  limitUserId :: string
  monthlyLimit :: number
  month :: number
  year :: number

record SpendingLimit = CreateLimitDto +
  limitId :: string

record PartialSpendingLimit =
  partialLimitId :: "string option"
  partialLimitUserId :: "string option"
  partialMonthlyLimit :: "number option"
  partialMonth :: "number option"
  partialYear :: "number option"

type_synonym limits = "SpendingLimit list"

definition limit_findByUserAndMonth ::
  "limits \<Rightarrow> string \<Rightarrow> number \<Rightarrow> number \<Rightarrow> SpendingLimit option" where
  "limit_findByUserAndMonth ls u m y =
     find (\<lambda>limit.
        limitUserId limit = u \<and>
        js_strict_eq (month limit) m \<and>
        js_strict_eq (year limit) y) ls"

definition limit_create :: "string \<Rightarrow> limits \<Rightarrow> CreateLimitDto \<Rightarrow> SpendingLimit \<times> limits" where
  "limit_create uuid ls limit =
     (let newLimit =
        \<lparr> limitUserId = limitUserId limit, monthlyLimit = monthlyLimit limit,
          month = month limit, year = year limit, limitId = uuid \<rparr>
      in (newLimit, ls @ [newLimit]))"

definition limit_update ::
  "limits \<Rightarrow> string \<Rightarrow> PartialSpendingLimit \<Rightarrow> (error + SpendingLimit) \<times> limits" where
  "limit_update ls i limit =
     (case findIndex (\<lambda>l. limitId l = i) ls of
        None \<Rightarrow> (Inl (Error ''Spending limit not found''), ls)
      | Some index \<Rightarrow>
          (let updated =
             \<lparr> limitUserId = nullish (partialLimitUserId limit) (limitUserId (ls ! index)),
               monthlyLimit = nullish (partialMonthlyLimit limit) (monthlyLimit (ls ! index)),
               month = nullish (partialMonth limit) (month (ls ! index)),
               year = nullish (partialYear limit) (year (ls ! index)),
               limitId = i \<rparr>
           in (Inr updated, ls[index := updated])))"

definition limit_delete :: "limits \<Rightarrow> string \<Rightarrow> limits" where
  "limit_delete ls i = filter (\<lambda>limit. limitId limit \<noteq> i) ls"

section \<open>Use cases\<close>

record SpendingSummary =
  totalSpent :: number
  spendingLimit :: "number option"
  remainingBudget :: "number option"
  percentageUsed :: "number option"

definition CreateExpenseUseCase_execute ::
  "string \<Rightarrow> expenses \<Rightarrow> CreateExpenseDto \<Rightarrow> Expense \<times> expenses" where
  "CreateExpenseUseCase_execute uuid es dto = expense_create uuid es dto"

definition GetMonthlyExpensesUseCase_execute ::
  "expenses \<Rightarrow> string \<Rightarrow> number \<Rightarrow> number \<Rightarrow> Expense list" where
  "GetMonthlyExpensesUseCase_execute es u m y = expense_findByMonth es u m y"

text \<open>
  \<open>GetSpendingSummaryUseCase.execute\<close> reads the expense repository \<open>es\<close> and the
  spending-limit repository \<open>ls\<close> it was constructed with. \<open>reduce\<close> is a left
  fold from \<open>0\<close>; \<open>!limit\<close> holds exactly when the lookup returned null.
\<close>

definition GetSpendingSummaryUseCase_execute ::
  "expenses \<Rightarrow> limits \<Rightarrow> string \<Rightarrow> number \<Rightarrow> number \<Rightarrow> SpendingSummary" where
  "GetSpendingSummaryUseCase_execute es ls u m y =
     (let found = expense_findByMonth es u m y;
          total = foldl (\<lambda>sum expense. js_add sum (amount expense)) (Fin 0) found
      in case limit_findByUserAndMonth ls u m y of
           None \<Rightarrow>
             \<lparr> totalSpent = total, spendingLimit = None,
               remainingBudget = None, percentageUsed = None \<rparr>
         | Some limit \<Rightarrow>
             \<lparr> totalSpent = total,
               spendingLimit = Some (monthlyLimit limit),
               remainingBudget = Some (js_sub (monthlyLimit limit) total),
               percentageUsed = Some (js_mul (js_div total (monthlyLimit limit)) (Fin 100)) \<rparr>)"

section \<open>AppModule and the HTTP controllers\<close>

text \<open>
  \<open>AppModule\<close> lists three repository providers: \<open>EXPENSE_REPOSITORY\<close> (class
  \<open>InMemoryExpenseRepository\<close>), \<open>SPENDING_LIMIT_REPOSITORY\<close> (class
  \<open>InMemorySpendingLimitRepository\<close>) and, as a provider of its own,
  \<open>InMemorySpendingLimitRepository\<close>. Each provider entry is instantiated once,
  so the application holds one expense array and two spending-limit arrays:
  the one behind the token and the one behind the class. Both use cases and
  both controllers are injected through the tokens; nothing is injected with
  the class provider, whose array stays empty. \<open>uuidCalls\<close> counts the calls of
  \<open>randomUUID\<close> made so far; the generator itself is the parameter
  \<open>randomUUID\<close> of the handlers.
\<close>

record App =
  expenseRepository :: expenses
  spendingLimitRepository :: limits
  inMemorySpendingLimitRepository :: limits
  uuidCalls :: nat


text \<open>The JSON body of \<open>POST /expenses\<close>: as \<open>CreateExpenseDto\<close>, with the date still a string.\<close>

record ExpenseBody =
  bodyAmount :: number
  bodyDescription :: string
  bodyCategory :: string
  bodyDate :: string
  bodyUserId :: string

text \<open>
  \<open>ExpenseController\<close>. \<open>newDate\<close> is the \<open>Date\<close> constructor applied to a string.
  \<open>ParseIntPipe\<close> has turned the query parameters \<open>month\<close> and \<open>year\<close> into
  integers before \<open>getMonthly\<close> and \<open>getSummary\<close> run.
\<close>

definition ExpenseController_create ::
  "(nat \<Rightarrow> string) \<Rightarrow> (string \<Rightarrow> date) \<Rightarrow> App \<Rightarrow> ExpenseBody \<Rightarrow> Expense \<times> App" where
  "ExpenseController_create randomUUID newDate app createExpenseDto =
     (let (created, es) =
        CreateExpenseUseCase_execute (randomUUID (uuidCalls app)) (expenseRepository app)
          \<lparr> amount = bodyAmount createExpenseDto,
            description = bodyDescription createExpenseDto,
            category = bodyCategory createExpenseDto,
            date = newDate (bodyDate createExpenseDto),
            userId = bodyUserId createExpenseDto \<rparr>
      in (created, app\<lparr> expenseRepository := es, uuidCalls := Suc (uuidCalls app) \<rparr>))"

definition ExpenseController_getMonthly :: "App \<Rightarrow> string \<Rightarrow> int \<Rightarrow> int \<Rightarrow> Expense list" where
  "ExpenseController_getMonthly app u m y =
     GetMonthlyExpensesUseCase_execute (expenseRepository app) u
       (Fin (real_of_int m)) (Fin (real_of_int y))"

definition ExpenseController_getSummary :: "App \<Rightarrow> string \<Rightarrow> int \<Rightarrow> int \<Rightarrow> SpendingSummary" where
  "ExpenseController_getSummary app u m y =
     GetSpendingSummaryUseCase_execute (expenseRepository app) (spendingLimitRepository app) u
       (Fin (real_of_int m)) (Fin (real_of_int y))"

text \<open>
  \<open>SpendingLimitController\<close>, the file \<open>spending-limit.controller.ts\<close> that
  \<open>AppModule\<close> imports: its repository is injected with
  \<open>@Inject(SPENDING_LIMIT_REPOSITORY)\<close>, the array the summary reads.
\<close>

definition SpendingLimitController_create ::
  "(nat \<Rightarrow> string) \<Rightarrow> App \<Rightarrow> CreateLimitDto \<Rightarrow> SpendingLimit \<times> App" where
  "SpendingLimitController_create randomUUID app createLimitDto =
     (let (created, ls) =
        limit_create (randomUUID (uuidCalls app)) (spendingLimitRepository app) createLimitDto
      in (created, app\<lparr> spendingLimitRepository := ls, uuidCalls := Suc (uuidCalls app) \<rparr>))"

text \<open>
  What a handler returns is sent as JSON. A finite number is written as itself
  (negative zero as \<open>0\<close>), an infinity or not-a-number as \<open>null\<close>; a date is
  written as its ISO string, an invalid date as \<open>null\<close>. \<open>None\<close> is \<open>null\<close>; the
  ISO string of a date is represented by the date.
\<close>

fun jsonNumber :: "number \<Rightarrow> number option" where
  "jsonNumber (Fin x) = Some (Fin x)"
| "jsonNumber NegZero = Some (Fin 0)"
| "jsonNumber _ = None"

fun jsonDate :: "date \<Rightarrow> date option" where
  "jsonDate InvalidDate = None"
| "jsonDate d = Some d"

record ExpenseJson =
  jsonId :: string
  jsonAmount :: "number option"
  jsonDescription :: string
  jsonCategory :: string
  jsonExpenseDate :: "date option"
  jsonUserId :: string

record SpendingLimitJson =
  jsonLimitId :: string
  jsonLimitUserId :: string
  jsonMonthlyLimit :: "number option"
  jsonMonth :: "number option"
  jsonYear :: "number option"

record SpendingSummaryJson =
  jsonTotalSpent :: "number option"
  jsonSpendingLimit :: "number option"
  jsonRemainingBudget :: "number option"
  jsonPercentageUsed :: "number option"

definition expenseToJson :: "Expense \<Rightarrow> ExpenseJson" where
  "expenseToJson e =
     \<lparr> jsonId = expenseId e, jsonAmount = jsonNumber (amount e),
       jsonDescription = description e, jsonCategory = category e,
       jsonExpenseDate = jsonDate (date e), jsonUserId = userId e \<rparr>"

definition limitToJson :: "SpendingLimit \<Rightarrow> SpendingLimitJson" where
  "limitToJson l =
     \<lparr> jsonLimitId = limitId l, jsonLimitUserId = limitUserId l,
       jsonMonthlyLimit = jsonNumber (monthlyLimit l),
       jsonMonth = jsonNumber (month l), jsonYear = jsonNumber (year l) \<rparr>"

definition summaryToJson :: "SpendingSummary \<Rightarrow> SpendingSummaryJson" where
  "summaryToJson s =
     \<lparr> jsonTotalSpent = jsonNumber (totalSpent s),
       jsonSpendingLimit = Option.bind (spendingLimit s) jsonNumber,
       jsonRemainingBudget = Option.bind (remainingBudget s) jsonNumber,
       jsonPercentageUsed = Option.bind (percentageUsed s) jsonNumber \<rparr>"

text \<open>Requests and responses of the four routes; POST answers 201, GET answers 200.\<close>

datatype request =
  POST_expenses ExpenseBody
  | GET_expenses string int int
  | GET_expenses_summary string int int
  | POST_spending_limits CreateLimitDto

datatype body =
  ExpenseResponse ExpenseJson
  | ExpensesResponse "ExpenseJson list"
  | SummaryResponse SpendingSummaryJson
  | SpendingLimitResponse SpendingLimitJson

type_synonym response = "nat \<times> body"

text \<open>\<open>handle\<close> routes one request to its controller method; \<open>serve\<close> handles requests in turn.\<close>

fun handle ::
  "(nat \<Rightarrow> string) \<Rightarrow> (string \<Rightarrow> date) \<Rightarrow> App \<Rightarrow> request \<Rightarrow> response \<times> App" where
  "handle randomUUID newDate app (POST_expenses b) =
     (let (created, app') = ExpenseController_create randomUUID newDate app b
      in ((201, ExpenseResponse (expenseToJson created)), app'))"
| "handle randomUUID newDate app (GET_expenses u m y) =
     ((200, ExpensesResponse (map expenseToJson (ExpenseController_getMonthly app u m y))), app)"
| "handle randomUUID newDate app (GET_expenses_summary u m y) =
     ((200, SummaryResponse (summaryToJson (ExpenseController_getSummary app u m y))), app)"
| "handle randomUUID newDate app (POST_spending_limits b) =
     (let (created, app') = SpendingLimitController_create randomUUID app b
      in ((201, SpendingLimitResponse (limitToJson created)), app'))"

fun serve ::
  "(nat \<Rightarrow> string) \<Rightarrow> (string \<Rightarrow> date) \<Rightarrow> App \<Rightarrow> request list \<Rightarrow> response list \<times> App" where
  "serve randomUUID newDate app [] = ([], app)"
| "serve randomUUID newDate app (r # rs) =
     (let (resp, app') = handle randomUUID newDate app r;
          (resps, app'') = serve randomUUID newDate app' rs
      in (resp # resps, app''))"

section \<open>Vocabulary of the specification\<close>

text \<open>
  The specification speaks of a date that falls within calendar month \<open>M\<close>
  (counted from 1) of year \<open>Y\<close>. An invalid date falls within no month.
\<close>

definition fallsInMonth :: "date \<Rightarrow> int \<Rightarrow> int \<Rightarrow> bool" where
  "fallsInMonth d M Y =
     (case d of InvalidDate \<Rightarrow> False
      | LocalDate y m dd t \<Rightarrow> int (monthIndex m) + 1 = M \<and> y = Y)"

text \<open>
  The specification of \<open>update\<close>: each field named in the partial is replaced,
  each field not named is kept, and the identifier is kept whatever the partial says.
\<close>

definition applyPartial :: "Expense \<Rightarrow> PartialExpense \<Rightarrow> Expense" where
  "applyPartial old p =
     \<lparr> amount = (case partialAmount p of None \<Rightarrow> amount old | Some v \<Rightarrow> v),
       description = (case partialDescription p of None \<Rightarrow> description old | Some v \<Rightarrow> v),
       category = (case partialCategory p of None \<Rightarrow> category old | Some v \<Rightarrow> v),
       date = (case partialDate p of None \<Rightarrow> date old | Some v \<Rightarrow> v),
       userId = (case partialUserId p of None \<Rightarrow> userId old | Some v \<Rightarrow> v),
       expenseId = expenseId old \<rparr>"

text \<open>The condition of \<open>findByUserAndMonth\<close>, and the record \<open>create\<close> builds.\<close>

definition limitMatches :: "SpendingLimit \<Rightarrow> string \<Rightarrow> number \<Rightarrow> number \<Rightarrow> bool" where
  "limitMatches l u m y =
     (limitUserId l = u \<and> js_strict_eq (month l) m \<and> js_strict_eq (year l) y)"

definition newLimit :: "string \<Rightarrow> CreateLimitDto \<Rightarrow> SpendingLimit" where
  "newLimit uuid d =
     \<lparr> limitUserId = limitUserId d, monthlyLimit = monthlyLimit d,
       month = month d, year = year d, limitId = uuid \<rparr>"

text \<open>An amount in whole units: a finite number that is a non-negative integer.\<close>

definition wholeAmount :: "number \<Rightarrow> bool" where
  "wholeAmount x =
     (case x of Fin r \<Rightarrow> 0 \<le> r \<and> r = of_int \<lfloor>r\<rfloor> | _ \<Rightarrow> False)"


section \<open>Example data\<close>

definition groceries :: Expense where
  "groceries =
     \<lparr> amount = Fin 50, description = ''Groceries'', category = ''Food'',
       date = LocalDate 2025 January 15 0, userId = ''user-123'', expenseId = ''e1'' \<rparr>"

definition bus :: Expense where
  "bus =
     \<lparr> amount = Fin 20, description = ''Bus'', category = ''Transport'',
       date = LocalDate 2025 February 3 0, userId = ''user-123'', expenseId = ''e2'' \<rparr>"

definition rent :: Expense where
  "rent =
     \<lparr> amount = Fin 700, description = ''Rent'', category = ''Home'',
       date = LocalDate 2025 January 1 0, userId = ''user-456'', expenseId = ''e3'' \<rparr>"

definition cinema :: Expense where
  "cinema =
     \<lparr> amount = Fin 12, description = ''Cinema'', category = ''Leisure'',
       date = LocalDate 2025 January 28 0, userId = ''user-123'', expenseId = ''e4'' \<rparr>"

definition onlyAmount :: "number \<Rightarrow> PartialExpense" where
  "onlyAmount a =
     \<lparr> partialId = None, partialAmount = Some a, partialDescription = None,
       partialCategory = None, partialDate = None, partialUserId = None \<rparr>"

definition january2025 :: "number \<Rightarrow> CreateLimitDto" where
  "january2025 a =
     \<lparr> limitUserId = ''user-123'', monthlyLimit = a, month = Fin 1, year = Fin 2025 \<rparr>"

definition foodA :: Expense where
  "foodA =
     \<lparr> amount = Fin 300, description = ''Expense A'', category = ''Food'',
       date = LocalDate 2025 January 10 0, userId = ''user-123'', expenseId = ''a1'' \<rparr>"

definition transportB :: Expense where
  "transportB =
     \<lparr> amount = Fin 300, description = ''Expense B'', category = ''Transport'',
       date = LocalDate 2025 January 15 0, userId = ''user-123'', expenseId = ''b1'' \<rparr>"






section \<open>Lemmas on rounding\<close>

lemma binade_numeral:
  "binade (numeral k) r =
     (if 2 \<le> r then binade (pred_numeral k) (r / 2) + 1
      else if r < 1 then binade (pred_numeral k) (2 * r) - 1
      else 0)"
  by (simp add: numeral_eq_Suc)

text \<open>The exponent found is the right one, for every positive value within the steps allowed.\<close>

lemma binade_bounds:
  "0 < r \<Longrightarrow> 2 powi (- int n) \<le> r \<Longrightarrow> r < 2 powi (int n) \<Longrightarrow>
   2 powi (binade n r) \<le> r \<and> r < 2 powi (binade n r + 1)"
proof (induction n arbitrary: r)
  case 0
  then show ?case by simp
next
  case (Suc n)
  show ?case
  proof (cases "2 \<le> r")
    case True
    have lo: "2 powi (- int n) \<le> r / 2"
    proof -
      have "(2::real) powi (- int n) \<le> 2 powi 0"
        by (rule power_int_increasing) simp_all
      with True show ?thesis by simp
    qed
    have "(2::real) powi (int n + 1) = 2 powi (int n) * 2"
      by (rule power_int_add_1) simp
    with Suc.prems(3) have hi: "r / 2 < 2 powi (int n)"
      by (simp add: add.commute)
    from True have "0 < r / 2" by simp
    from Suc.IH [OF this lo hi]
    have "2 powi (binade n (r / 2)) \<le> r / 2" "r / 2 < 2 powi (binade n (r / 2) + 1)" by simp_all
    moreover have "(2::real) powi (binade n (r / 2) + 1) = 2 powi (binade n (r / 2)) * 2"
      by (rule power_int_add_1) simp
    moreover have "(2::real) powi (binade n (r / 2) + 1 + 1) = 2 powi (binade n (r / 2) + 1) * 2"
      by (rule power_int_add_1) simp
    ultimately have "2 powi (binade n (r / 2) + 1) \<le> r" "r < 2 powi (binade n (r / 2) + 1 + 1)"
      by linarith+
    with True show ?thesis by simp
  next
    case False
    show ?thesis
    proof (cases "r < 1")
      case True
      have lo: "2 powi (- int n) \<le> 2 * r"
      proof -
        have "(2::real) powi (- int (Suc n) + 1) = 2 powi (- int (Suc n)) * 2"
          by (rule power_int_add_1) simp
        then have "(2::real) powi (- int n) = 2 * 2 powi (- int (Suc n))"
          by simp
        with Suc.prems(2) show ?thesis by simp
      qed
      show ?thesis
      proof (cases "2 * r < 2 powi (int n)")
        case True
        from Suc.prems(1) have "0 < 2 * r" by simp
        from Suc.IH [OF this lo True]
        have "2 powi (binade n (2 * r)) \<le> 2 * r" "2 * r < 2 powi (binade n (2 * r) + 1)"
          by simp_all
        moreover have "(2::real) powi (binade n (2 * r) - 1) * 2 = 2 powi (binade n (2 * r))"
          by (rule power_int_minus_mult) simp
        moreover have "(2::real) powi (binade n (2 * r) + 1) = 2 powi (binade n (2 * r)) * 2"
          by (rule power_int_add_1) simp
        ultimately have "2 powi (binade n (2 * r) - 1) \<le> r" "r < 2 powi (binade n (2 * r))"
          by linarith+
        with \<open>r < 1\<close> False show ?thesis by simp
      next
        case big: False
        have "n = 0"
        proof (rule ccontr)
          assume "n \<noteq> 0"
          then have "(2::real) powi 1 \<le> 2 powi (int n)"
            by (intro power_int_increasing) simp_all
          with \<open>r < 1\<close> big show False by simp
        qed
        with big \<open>r < 1\<close> False show ?thesis
          by (simp add: power_int_minus field_simps)
      qed
    next
      case one: False
      with False show ?thesis by simp
    qed
  qed
qed


text \<open>How a positive value is rounded, once its exponent and its multiple of the spacing are known.\<close>

lemma roundDouble_pos:
  assumes "0 < r"
    and "binade 1100 r = e"
    and "- 1022 \<le> e"
    and "roundHalfEven (r / 2 powi (e - 52)) = n"
    and "0 < n"
    and "of_int n * 2 powi (e - 52) < (2::real) powi 1024"
  shows "roundDouble r = Fin (of_int n * 2 powi (e - 52))"
proof -
  from assms(2,3) have e: "max (binade 1100 \<bar>r\<bar>) (- 1022) = e"
    using assms(1) by simp
  from assms(1) have nz: "r \<noteq> 0" and a: "\<bar>r\<bar> = r" and pos: "\<not> r < 0" by simp_all
  show ?thesis
    unfolding roundDouble_def Let_def e
    using nz a pos assms(4,5,6) by simp
qed

lemma roundDouble_overflow:
  assumes "0 < r"
    and "binade 1100 r = e"
    and "- 1022 \<le> e"
    and "roundHalfEven (r / 2 powi (e - 52)) = n"
    and "(2::real) powi 1024 \<le> of_int n * 2 powi (e - 52)"
  shows "roundDouble r = Infinity"
proof -
  from assms(2,3) have e: "max (binade 1100 \<bar>r\<bar>) (- 1022) = e"
    using assms(1) by simp
  from assms(1) have nz: "r \<noteq> 0" and a: "\<bar>r\<bar> = r" and pos: "\<not> r < 0" by simp_all
  show ?thesis
    unfolding roundDouble_def Let_def e
    using nz a pos assms(4,5) by (simp add: signedInfinity_def)
qed

text \<open>Integers of magnitude below \<open>2^53\<close> are doubles: rounding leaves them as they are.\<close>

lemma roundHalfEven_of_int: "roundHalfEven (of_int k) = k"
  by (simp add: roundHalfEven_def)

lemma roundDouble_of_int:
  assumes "i \<noteq> 0" and "\<bar>i\<bar> < 2 ^ 53"
  shows "roundDouble (of_int i) = Fin (of_int i)"
proof -
  define a where "a = \<bar>real_of_int i\<bar>"
  define e where "e = binade 1100 a"
  have a1: "1 \<le> a" using assms(1) by (simp add: a_def)
  have "real_of_int \<bar>i\<bar> < real_of_int (2 ^ 53)"
    using assms(2) by (simp only: of_int_less_iff)
  then have a53: "a < 2 powi 53" by (simp add: a_def)
  have lo: "2 powi (- int 1100) \<le> a"
  proof -
    have "(2::real) powi (- int 1100) \<le> 2 powi 0"
      by (rule power_int_increasing) simp_all
    with a1 show ?thesis by simp
  qed
  have hi: "a < 2 powi (int 1100)"
  proof -
    have "(2::real) powi 53 \<le> 2 powi (int 1100)"
      by (rule power_int_increasing) simp_all
    with a53 show ?thesis by simp
  qed
  from a1 have "0 < a" by simp
  from binade_bounds [OF this lo hi]
  have b1: "2 powi e \<le> a" and b2: "a < 2 powi (e + 1)" by (simp_all add: e_def)
  have e0: "0 \<le> e"
  proof (rule ccontr)
    assume "\<not> 0 \<le> e"
    then have "e + 1 \<le> 0" by simp
    then have "(2::real) powi (e + 1) \<le> 2 powi 0"
      by (rule power_int_increasing) simp
    with b2 a1 show False by simp
  qed
  have e52: "e \<le> 52"
  proof (rule ccontr)
    assume "\<not> e \<le> 52"
    then have "53 \<le> e" by simp
    then have "(2::real) powi 53 \<le> 2 powi e"
      by (rule power_int_increasing) simp
    with b1 a53 show False by simp
  qed
  define k where "k = nat (52 - e)"
  have ek: "e - 52 = - int k" using e52 by (simp add: k_def)
  have ulp: "(2::real) powi (e - 52) = 1 / 2 ^ k"
    by (simp add: ek power_int_minus_divide)
  have quot: "a / 2 powi (e - 52) = real_of_int (\<bar>i\<bar> * 2 ^ k)"
    by (simp add: ulp a_def)
  have n: "roundHalfEven (a / 2 powi (e - 52)) = \<bar>i\<bar> * 2 ^ k"
    unfolding quot by (rule roundHalfEven_of_int)
  have v: "real_of_int (\<bar>i\<bar> * 2 ^ k) * 2 powi (e - 52) = a"
    by (simp add: ulp a_def)
  have nz: "\<bar>i\<bar> * 2 ^ k \<noteq> 0" using assms(1) by simp
  have small: "\<not> 2 powi 1024 \<le> a"
  proof -
    have "(2::real) powi 53 \<le> 2 powi 1024"
      by (rule power_int_increasing) simp_all
    with a53 show ?thesis by simp
  qed
  have m: "max e (- 1022) = e" using e0 by simp
  have r0: "real_of_int i \<noteq> 0" using assms(1) by simp
  have sgn: "(if real_of_int i < 0 then - a else a) = real_of_int i"
    by (simp add: a_def)
  show ?thesis
    unfolding roundDouble_def Let_def
    unfolding a_def [symmetric] e_def [symmetric] m n v
    using r0 nz small sgn by simp
qed

lemma roundDouble_numeral:
  "(numeral k :: int) < 2 ^ 53 \<Longrightarrow> roundDouble (numeral k) = Fin (numeral k)"
  using roundDouble_of_int [of "numeral k"] by simp


lemma roundDouble_one: "roundDouble 1 = Fin 1"
  using roundDouble_of_int [of 1] by simp



text \<open>
  Three results of the language that exact arithmetic would miss: \<open>0.1 + 0.2\<close>
  is \<open>0.30000000000000004\<close>, \<open>(7 / 100) * 100\<close> is \<open>7.000000000000001\<close>, and
  \<open>1e308 + 1e308\<close> is \<open>Infinity\<close>.
\<close>

lemma literal_tenth: "literal (1 / 10) = Fin (3602879701896397 / 36028797018963968)"
proof -
  have "roundDouble (1 / 10) = Fin (of_int 7205759403792794 * 2 powi (- 4 - 52))"
  proof (rule roundDouble_pos)
    show "binade 1100 (1 / 10) = - 4" by (simp add: binade_numeral)
    show "roundHalfEven (1 / 10 / 2 powi (- 4 - 52)) = 7205759403792794"
      by (simp add: roundHalfEven_def Let_def)
  qed simp_all
  then show ?thesis by (simp add: literal_def)
qed

lemma literal_fifth: "literal (2 / 10) = Fin (3602879701896397 / 18014398509481984)"
proof -
  have "roundDouble (2 / 10) = Fin (of_int 7205759403792794 * 2 powi (- 3 - 52))"
  proof (rule roundDouble_pos)
    show "binade 1100 (2 / 10) = - 3" by (simp add: binade_numeral)
    show "roundHalfEven (2 / 10 / 2 powi (- 3 - 52)) = 7205759403792794"
      by (simp add: roundHalfEven_def Let_def)
  qed simp_all
  then show ?thesis by (simp add: literal_def)
qed

lemma tenth_plus_fifth:
  "js_add (literal (1 / 10)) (literal (2 / 10)) = Fin (1351079888211149 / 4503599627370496)"
proof -
  have "js_add (literal (1 / 10)) (literal (2 / 10)) =
      roundDouble (3602879701896397 / 36028797018963968 + 3602879701896397 / 18014398509481984)"
    by (simp only: literal_tenth literal_fifth js_add.simps)
  also have "\<dots> = Fin (of_int 5404319552844596 * 2 powi (- 2 - 52))"
  proof (rule roundDouble_pos)
    show "binade 1100 (3602879701896397 / 36028797018963968 + 3602879701896397 / 18014398509481984) = - 2"
      by (simp add: binade_numeral)
    show "roundHalfEven ((3602879701896397 / 36028797018963968 + 3602879701896397 / 18014398509481984) / 2 powi (- 2 - 52)) = 5404319552844596"
      by (simp add: roundHalfEven_def Let_def)
  qed simp_all
  finally show ?thesis by simp
qed

lemma seven_percent:
  "js_mul (js_div (Fin 7) (Fin 100)) (Fin 100) = Fin (7881299347898369 / 1125899906842624)"
proof -
  have "roundDouble (7 / 100) = Fin (of_int 5044031582654956 * 2 powi (- 4 - 52))"
  proof (rule roundDouble_pos)
    show "binade 1100 (7 / 100) = - 4" by (simp add: binade_numeral)
    show "roundHalfEven (7 / 100 / 2 powi (- 4 - 52)) = 5044031582654956"
      by (simp add: roundHalfEven_def Let_def)
  qed simp_all
  then have q: "js_div (Fin 7) (Fin 100) = Fin (1261007895663739 / 18014398509481984)"
    by (simp add: js_div_def)
  have "js_mul (Fin (1261007895663739 / 18014398509481984)) (Fin 100) =
      roundDouble (1261007895663739 / 18014398509481984 * 100)"
    by (simp add: js_mul_def)
  also have "\<dots> = Fin (of_int 7881299347898369 * 2 powi (2 - 52))"
  proof (rule roundDouble_pos)
    show "binade 1100 (1261007895663739 / 18014398509481984 * 100) = 2"
      by (simp add: binade_numeral)
    show "roundHalfEven (1261007895663739 / 18014398509481984 * 100 / 2 powi (2 - 52)) = 7881299347898369"
      by (simp add: roundHalfEven_def Let_def)
  qed simp_all
  finally show ?thesis by (simp add: q)
qed

lemma literal_1e308: "literal (10 ^ 308) = Fin (5010420900022432 * 2 ^ 971)"
proof -
  have "roundDouble (10 ^ 308) = Fin (of_int 5010420900022432 * 2 powi (1023 - 52))"
  proof (rule roundDouble_pos)
    show "binade 1100 (10 ^ 308) = 1023" by (simp add: binade_numeral)
    show "roundHalfEven (10 ^ 308 / 2 powi (1023 - 52)) = 5010420900022432"
      by (simp add: roundHalfEven_def Let_def)
  qed simp_all
  then show ?thesis by (simp add: literal_def)
qed

lemma ten_to_308_twice: "js_add (literal (10 ^ 308)) (literal (10 ^ 308)) = Infinity"
proof -
  have "roundDouble (5010420900022432 * 2 ^ 971 + 5010420900022432 * 2 ^ 971) = Infinity"
  proof (rule roundDouble_overflow)
    show "binade 1100 (5010420900022432 * 2 ^ 971 + 5010420900022432 * 2 ^ 971) = 1024"
      by (simp add: binade_numeral)
    show "roundHalfEven ((5010420900022432 * 2 ^ 971 + 5010420900022432 * 2 ^ 971) / 2 powi (1024 - 52)) = 5010420900022432"
      by (simp add: roundHalfEven_def Let_def)
  qed simp_all
  then show ?thesis by (simp only: literal_1e308 js_add.simps)
qed

section \<open>Lemmas on dates and arrays\<close>

lemma monthIndex_le: "monthIndex m \<le> 11"
  by (cases m) simp_all

lemma roundDouble_month: "roundDouble (real (monthIndex m) + 1) = Fin (real (monthIndex m) + 1)"
proof -
  have "monthIndex m \<le> 11" by (rule monthIndex_le)
  then have "\<bar>int (monthIndex m) + 1\<bar> < 2 ^ 53" by simp
  moreover have "int (monthIndex m) + 1 \<noteq> 0" by simp
  ultimately have "roundDouble (real_of_int (int (monthIndex m) + 1)) =
      Fin (real_of_int (int (monthIndex m) + 1))"
    by (rule roundDouble_of_int [rotated])
  then show ?thesis by simp
qed

lemma js_strict_eq_Fin: "js_strict_eq (Fin a) (Fin b) \<longleftrightarrow> a = b"
  by (auto simp: js_strict_eq_def)

lemma real_month_eq: "real k + 1 = real_of_int M \<longleftrightarrow> int k + 1 = M"
proof -
  have "real k + 1 = real_of_int (int k + 1)" by simp
  then show ?thesis by (simp only: of_int_eq_iff)
qed

lemma month_year_match:
  "js_strict_eq (js_add (getMonth d) (Fin 1)) (Fin (real_of_int M)) \<and>
   js_strict_eq (getFullYear d) (Fin (real_of_int Y)) \<longleftrightarrow> fallsInMonth d M Y"
proof (cases d)
  case InvalidDate
  then show ?thesis by (simp add: fallsInMonth_def js_strict_eq_def)
next
  case (LocalDate y m dd t)
  then show ?thesis
    by (simp add: fallsInMonth_def roundDouble_month js_strict_eq_Fin real_month_eq)
qed

lemma month_out_of_range:
  assumes "\<not> (\<exists>x. m = Fin x \<and> 1 \<le> x \<and> x \<le> 12)"
  shows "\<not> js_strict_eq (js_add (getMonth d) (Fin 1)) m"
proof (cases d)
  case InvalidDate
  then show ?thesis by (simp add: js_strict_eq_def)
next
  case (LocalDate y mo dd t)
  have k: "monthIndex mo \<le> 11" by (rule monthIndex_le)
  show ?thesis
  proof
    assume "js_strict_eq (js_add (getMonth d) (Fin 1)) m"
    with LocalDate have "m = Fin (real (monthIndex mo) + 1)"
      by (cases m) (auto simp: js_strict_eq_def roundDouble_month split: if_splits)
    moreover have "1 \<le> real (monthIndex mo) + 1" by simp
    moreover from k have "real (monthIndex mo) + 1 \<le> 12" by simp
    ultimately show False using assms by blast
  qed
qed

lemma findByMonth_filter:
  "expense_findByMonth es U (Fin (real_of_int M)) (Fin (real_of_int Y)) =
     filter (\<lambda>e. userId e = U \<and> fallsInMonth (date e) M Y) es"
  unfolding expense_findByMonth_def
  by (rule filter_cong) (simp_all add: month_year_match)

lemma findIndex_None: "findIndex P xs = None \<longleftrightarrow> (\<forall>x\<in>set xs. \<not> P x)"
  by (induction xs) auto

lemma findIndex_Some:
  "findIndex P xs = Some n \<Longrightarrow> n < length xs \<and> P (xs ! n) \<and> (\<forall>j<n. \<not> P (xs ! j))"
proof (induction xs arbitrary: n)
  case Nil
  then show ?case by simp
next
  case (Cons x xs)
  show ?case
  proof (cases "P x")
    case True
    with Cons.prems show ?thesis by simp
  next
    case False
    with Cons.prems obtain k where k: "findIndex P xs = Some k" and n: "n = Suc k"
      by auto
    from Cons.IH [OF k] False n show ?thesis
      by (auto simp: less_Suc_eq_0_disj)
  qed
qed

lemma findIndex_find:
  "find P xs = Some x \<Longrightarrow> \<exists>n. findIndex P xs = Some n \<and> xs ! n = x"
  by (induction xs) (auto split: if_splits)

lemma find_None: "find P xs = None \<longleftrightarrow> (\<forall>x\<in>set xs. \<not> P x)"
  by (induction xs) auto

lemma update_found:
  assumes "expense_findById es i = Some old"
  shows "\<exists>index<length es. es ! index = old \<and> (\<forall>j<index. expenseId (es ! j) \<noteq> i) \<and>
           expense_update es i p = (Inr (applyPartial old p), es[index := applyPartial old p])"
proof -
  from assms obtain n where n: "findIndex (\<lambda>e. expenseId e = i) es = Some n" and old: "es ! n = old"
    unfolding expense_findById_def by (blast dest: findIndex_find)
  from findIndex_Some [OF n] have len: "n < length es" and idn: "expenseId (es ! n) = i"
    and before: "\<forall>j<n. expenseId (es ! j) \<noteq> i" by auto
  have "expense_update es i p = (Inr (applyPartial old p), es[n := applyPartial old p])"
    using n old idn by (simp add: expense_update_def applyPartial_def nullish_def Let_def)
  with len old before show ?thesis by blast
qed

lemma update_missing:
  assumes "\<forall>e\<in>set es. expenseId e \<noteq> i"
  shows "expense_update es i p = (Inl (Error ''Expense not found''), es)"
proof -
  from assms have "findIndex (\<lambda>e. expenseId e = i) es = None"
    by (simp add: findIndex_None)
  then show ?thesis by (simp add: expense_update_def)
qed

section \<open>The monthly filter\<close>

text \<open>
  Claim C4. For every content of the expense array, every user \<open>U\<close>, every month
  \<open>M\<close> (counted from 1) and every year \<open>Y\<close>, \<open>findByMonth(U, M, Y)\<close> returns
  exactly the stored expenses whose \<open>userId\<close> is \<open>U\<close> and whose date falls within
  month \<open>M\<close> of year \<open>Y\<close>, in the order of the array and with nothing else; when
  no stored expense matches, the result is the empty array.
\<close>

theorem findByMonth_exact:
  "expense_findByMonth es U (Fin (real_of_int M)) (Fin (real_of_int Y)) =
     filter (\<lambda>e. userId e = U \<and> fallsInMonth (date e) M Y) es \<and>
   ((\<forall>e\<in>set es. \<not> (userId e = U \<and> fallsInMonth (date e) M Y)) \<longrightarrow>
      expense_findByMonth es U (Fin (real_of_int M)) (Fin (real_of_int Y)) = [])"
  by (simp add: findByMonth_filter filter_empty_conv)

theorem findByMonth_exact_witness:
  "expense_findByMonth [groceries, bus, rent, cinema] ''user-123'' (Fin 1) (Fin 2025) =
     [groceries, cinema] \<and>
   expense_findByMonth [bus, rent] ''user-123'' (Fin 1) (Fin 2025) = []"
proof -
  have a: "(\<forall>e\<in>set [bus, rent]. \<not> (userId e = ''user-123'' \<and> fallsInMonth (date e) 1 2025))"
    by (simp add: bus_def rent_def fallsInMonth_def)
  show ?thesis
    using findByMonth_exact [of "[groceries, bus, rent, cinema]" "''user-123''" 1 2025]
      findByMonth_exact [of "[bus, rent]" "''user-123''" 1 2025] a
    by (simp add: groceries_def bus_def rent_def cinema_def fallsInMonth_def)
qed

text \<open>
  Claim C10. For every content of the expense array, every user and every year,
  a month argument outside the range 1 to 12 (not-a-number and the infinities
  included) makes \<open>findByMonth\<close> return the empty array.
\<close>

theorem findByMonth_month_out_of_range:
  assumes "\<not> (\<exists>x. m = Fin x \<and> 1 \<le> x \<and> x \<le> 12)"
  shows "expense_findByMonth es u m y = []"
  unfolding expense_findByMonth_def
  using month_out_of_range [OF assms] by simp

theorem findByMonth_month_out_of_range_witness:
  "\<not> (\<exists>x. Fin 13 = Fin x \<and> 1 \<le> x \<and> x \<le> 12) \<and>
   expense_findByMonth [groceries, bus, rent, cinema] ''user-123'' (Fin 13) (Fin 2025) = []"
proof -
  have h: "\<not> (\<exists>x. Fin 13 = Fin x \<and> 1 \<le> x \<and> x \<le> 12)" by simp
  show ?thesis
    using h findByMonth_month_out_of_range [OF h] by simp
qed

section \<open>Update and delete\<close>

text \<open>
  Claim C7. For every content of the expense array: when an expense with the
  given id exists, \<open>update(id, partial)\<close> replaces, in the first expense with that
  id, exactly the fields named in the partial, keeps every other field and the
  id, leaves every other element of the array as it is, and returns the updated
  expense; when no expense has the id, \<open>update\<close> fails with the error
  \<open>Expense not found\<close>.
\<close>

theorem update_spec:
  "(\<forall>old. expense_findById es i = Some old \<longrightarrow>
      (\<exists>index<length es. es ! index = old \<and> (\<forall>j<index. expenseId (es ! j) \<noteq> i) \<and>
         expense_update es i p = (Inr (applyPartial old p), es[index := applyPartial old p]))) \<and>
   ((\<forall>e\<in>set es. expenseId e \<noteq> i) \<longrightarrow>
      fst (expense_update es i p) = Inl (Error ''Expense not found''))"
proof (intro conjI allI impI)
  fix old assume "expense_findById es i = Some old"
  then show "\<exists>index<length es. es ! index = old \<and> (\<forall>j<index. expenseId (es ! j) \<noteq> i) \<and>
         expense_update es i p = (Inr (applyPartial old p), es[index := applyPartial old p])"
    by (rule update_found)
next
  assume "\<forall>e\<in>set es. expenseId e \<noteq> i"
  then show "fst (expense_update es i p) = Inl (Error ''Expense not found'')"
    by (simp add: update_missing)
qed

theorem update_spec_witness:
  "expense_update [bus, groceries] ''e1'' (onlyAmount (Fin 75)) =
     (Inr (groceries\<lparr>amount := Fin 75\<rparr>), [bus, groceries\<lparr>amount := Fin 75\<rparr>]) \<and>
   fst (expense_update [bus, groceries] ''e9'' (onlyAmount (Fin 75))) =
     Inl (Error ''Expense not found'')"
proof -
  have found: "expense_findById [bus, groceries] ''e1'' = Some groceries"
    by (simp add: expense_findById_def bus_def groceries_def)
  have absent: "\<forall>e\<in>set [bus, groceries]. expenseId e \<noteq> ''e9''"
    by (simp add: bus_def groceries_def)
  have new: "applyPartial groceries (onlyAmount (Fin 75)) = groceries\<lparr>amount := Fin 75\<rparr>"
    by (simp add: applyPartial_def onlyAmount_def groceries_def)
  from update_spec [of "[bus, groceries]" "''e1''" "onlyAmount (Fin 75)"] found
  obtain index where "index < length [bus, groceries]" and "[bus, groceries] ! index = groceries"
    and before: "\<forall>j<index. expenseId ([bus, groceries] ! j) \<noteq> ''e1''"
    and upd: "expense_update [bus, groceries] ''e1'' (onlyAmount (Fin 75)) =
       (Inr (applyPartial groceries (onlyAmount (Fin 75))),
        [bus, groceries][index := applyPartial groceries (onlyAmount (Fin 75))])"
    by blast
  then have "index = 1"
    by (cases index) (auto simp: bus_def groceries_def less_Suc_eq)
  with upd new have first: "expense_update [bus, groceries] ''e1'' (onlyAmount (Fin 75)) =
     (Inr (groceries\<lparr>amount := Fin 75\<rparr>), [bus, groceries\<lparr>amount := Fin 75\<rparr>])"
    by simp
  from update_spec [of "[bus, groceries]" "''e9''" "onlyAmount (Fin 75)"] absent
  have "fst (expense_update [bus, groceries] ''e9'' (onlyAmount (Fin 75))) =
     Inl (Error ''Expense not found'')"
    by blast
  with first show ?thesis by simp
qed

text \<open>
  Claim C8. For every content of the expense array and every id, \<open>delete(id)\<close>
  returns normally whether or not the id is present, a second \<open>delete(id)\<close>
  changes nothing more, deleting an absent id leaves the array as it is, and
  \<open>findById(id)\<close> after \<open>delete(id)\<close> returns null.
\<close>

theorem delete_spec:
  "expense_findById (expense_delete es i) i = None \<and>
   expense_delete (expense_delete es i) i = expense_delete es i \<and>
   ((\<forall>e\<in>set es. expenseId e \<noteq> i) \<longrightarrow> expense_delete es i = es)"
proof (intro conjI impI)
  show "expense_findById (expense_delete es i) i = None"
    by (simp add: expense_findById_def expense_delete_def find_None)
  show "expense_delete (expense_delete es i) i = expense_delete es i"
    by (simp add: expense_delete_def)
  assume "\<forall>e\<in>set es. expenseId e \<noteq> i"
  then show "expense_delete es i = es"
    by (simp add: expense_delete_def filter_id_conv)
qed

theorem delete_spec_witness:
  "expense_delete [bus, groceries] ''e9'' = [bus, groceries] \<and>
   expense_findById (expense_delete [bus, groceries] ''e1'') ''e1'' = None"
proof -
  have absent: "\<forall>e\<in>set [bus, groceries]. expenseId e \<noteq> ''e9''"
    by (simp add: bus_def groceries_def)
  from delete_spec [of "[bus, groceries]" "''e9''"] absent
  have "expense_delete [bus, groceries] ''e9'' = [bus, groceries]" by blast
  moreover from delete_spec [of "[bus, groceries]" "''e1''"]
  have "expense_findById (expense_delete [bus, groceries] ''e1'') ''e1'' = None" by blast
  ultimately show ?thesis by blast
qed

text \<open>
  Claim C9. For every content of the expense array, when no expense has the
  given id, \<open>update(id, partial)\<close> throws and leaves the array exactly as it was.
\<close>

theorem update_missing_keeps_store:
  assumes "\<forall>e\<in>set es. expenseId e \<noteq> i"
  shows "expense_update es i p = (Inl (Error ''Expense not found''), es)"
  using assms by (rule update_missing)

theorem update_missing_keeps_store_witness:
  "expense_update [bus, groceries] ''e9'' (onlyAmount (Fin 75)) =
     (Inl (Error ''Expense not found''), [bus, groceries])"
proof -
  have absent: "\<forall>e\<in>set [bus, groceries]. expenseId e \<noteq> ''e9''"
    by (simp add: bus_def groceries_def)
  show ?thesis
    using update_missing_keeps_store [OF absent, of "onlyAmount (Fin 75)"] by blast
qed

section \<open>The spending-limit repository\<close>

lemma find_Some_split:
  "find P xs = Some x \<Longrightarrow> \<exists>pre post. xs = pre @ x # post \<and> P x \<and> (\<forall>y\<in>set pre. \<not> P y)"
proof (induction xs)
  case Nil
  then show ?case by simp
next
  case (Cons a xs)
  show ?case
  proof (cases "P a")
    case True
    with Cons.prems have "a = x" by simp
    with True have "a # xs = [] @ x # xs \<and> P x \<and> (\<forall>y\<in>set []. \<not> P y)" by simp
    then show ?thesis by blast
  next
    case False
    with Cons.prems have "find P xs = Some x" by simp
    from Cons.IH [OF this] obtain pre post
      where "xs = pre @ x # post" "P x" "\<forall>y\<in>set pre. \<not> P y" by blast
    with False have "a # xs = (a # pre) @ x # post \<and> P x \<and> (\<forall>y\<in>set (a # pre). \<not> P y)"
      by simp
    then show ?thesis by blast
  qed
qed

lemma find_append_Some: "find P xs = Some x \<Longrightarrow> find P (xs @ ys) = Some x"
  by (induction xs) (auto split: if_splits)

lemma limit_find_unfold:
  "limit_findByUserAndMonth ls u m y = find (\<lambda>l. limitMatches l u m y) ls"
  by (simp add: limit_findByUserAndMonth_def limitMatches_def)

text \<open>
  Claim C6. \<open>create\<close> on the spending-limit repository appends the new record
  without looking at the records already there, so two calls (with the same key
  or not) leave two records behind; and for every content of the array,
  \<open>findByUserAndMonth\<close> returns null exactly when no record matches, and
  otherwise the first matching record in the order of the array, which stays
  the answer after a further \<open>create\<close>.
\<close>

theorem limit_create_then_first_match:
  "limit_create uuid ls d = (newLimit uuid d, ls @ [newLimit uuid d]) \<and>
   snd (limit_create uuid' (snd (limit_create uuid ls d)) d') =
     ls @ [newLimit uuid d, newLimit uuid' d'] \<and>
   (limit_findByUserAndMonth ls u m y = None \<longleftrightarrow> (\<forall>l\<in>set ls. \<not> limitMatches l u m y)) \<and>
   (\<forall>l. limit_findByUserAndMonth ls u m y = Some l \<longrightarrow>
      (\<exists>pre post. ls = pre @ l # post \<and> limitMatches l u m y \<and>
         (\<forall>l'\<in>set pre. \<not> limitMatches l' u m y)) \<and>
      limit_findByUserAndMonth (snd (limit_create uuid ls d)) u m y = Some l)"
proof (intro conjI allI impI)
  show c: "limit_create uuid ls d = (newLimit uuid d, ls @ [newLimit uuid d])"
    by (simp add: limit_create_def newLimit_def Let_def)
  show "snd (limit_create uuid' (snd (limit_create uuid ls d)) d') =
     ls @ [newLimit uuid d, newLimit uuid' d']"
    by (simp add: limit_create_def newLimit_def Let_def)
  show "limit_findByUserAndMonth ls u m y = None \<longleftrightarrow> (\<forall>l\<in>set ls. \<not> limitMatches l u m y)"
    by (simp add: limit_find_unfold find_None)
next
  fix l assume "limit_findByUserAndMonth ls u m y = Some l"
  then have f: "find (\<lambda>l. limitMatches l u m y) ls = Some l"
    by (simp add: limit_find_unfold)
  from find_Some_split [OF f]
  show "\<exists>pre post. ls = pre @ l # post \<and> limitMatches l u m y \<and>
         (\<forall>l'\<in>set pre. \<not> limitMatches l' u m y)" .
  have "limit_create uuid ls d = (newLimit uuid d, ls @ [newLimit uuid d])"
    by (simp add: limit_create_def newLimit_def Let_def)
  with find_append_Some [OF f]
  show "limit_findByUserAndMonth (snd (limit_create uuid ls d)) u m y = Some l"
    by (simp add: limit_find_unfold)
qed

theorem limit_create_then_first_match_witness:
  "snd (limit_create ''b'' (snd (limit_create ''a'' [] (january2025 (Fin 1000))))
      (january2025 (Fin 2000))) =
     [newLimit ''a'' (january2025 (Fin 1000)), newLimit ''b'' (january2025 (Fin 2000))] \<and>
   limit_findByUserAndMonth
     [newLimit ''a'' (january2025 (Fin 1000)), newLimit ''b'' (january2025 (Fin 2000))]
     ''user-123'' (Fin 1) (Fin 2025) = Some (newLimit ''a'' (january2025 (Fin 1000))) \<and>
   limit_findByUserAndMonth [newLimit ''a'' (january2025 (Fin 1000))]
     ''user-123'' (Fin 2) (Fin 2025) = None"
proof -
  let ?a = "newLimit ''a'' (january2025 (Fin 1000))"
  let ?b = "newLimit ''b'' (january2025 (Fin 2000))"
  have one: "limit_findByUserAndMonth [?a] ''user-123'' (Fin 1) (Fin 2025) = Some ?a"
    by (simp add: limit_findByUserAndMonth_def newLimit_def january2025_def js_strict_eq_def)
  have none: "\<forall>l\<in>set [?a]. \<not> limitMatches l ''user-123'' (Fin 2) (Fin 2025)"
    by (simp add: limitMatches_def newLimit_def january2025_def js_strict_eq_def)
  have "snd (limit_create ''b'' (snd (limit_create ''a'' [] (january2025 (Fin 1000))))
      (january2025 (Fin 2000))) = [?a, ?b]"
    using limit_create_then_first_match
      [of "''a''" "[]" "january2025 (Fin 1000)" "''b''" "january2025 (Fin 2000)"
        "''user-123''" "Fin 1" "Fin 2025", THEN conjunct2, THEN conjunct1]
    by simp
  moreover have "limit_findByUserAndMonth [?a, ?b] ''user-123'' (Fin 1) (Fin 2025) = Some ?a"
    using limit_create_then_first_match
      [of "''b''" "[?a]" "january2025 (Fin 2000)" "''b''" "january2025 (Fin 2000)"
        "''user-123''" "Fin 1" "Fin 2025"] one
    by (elim conjE) simp
  moreover have "limit_findByUserAndMonth [?a] ''user-123'' (Fin 2) (Fin 2025) = None"
    using limit_create_then_first_match
      [of "''b''" "[?a]" "january2025 (Fin 2000)" "''b''" "january2025 (Fin 2000)"
        "''user-123''" "Fin 2" "Fin 2025"] none
    by blast
  ultimately show ?thesis by blast
qed

section \<open>The spending summary\<close>

lemma wholeAmount_Fin:
  "wholeAmount x \<Longrightarrow> x = Fin (real_of_int \<lfloor>valueOf x\<rfloor>) \<and> 0 \<le> \<lfloor>valueOf x\<rfloor>"
  by (cases x) (simp_all add: wholeAmount_def)

lemma js_add_whole:
  assumes "0 \<le> a" and "0 \<le> k" and "a + k < 2 ^ 53"
  shows "js_add (Fin (real_of_int a)) (Fin (real_of_int k)) = Fin (real_of_int (a + k))"
proof (cases "a + k = 0")
  case True
  then have "real_of_int a + real_of_int k = 0"
    by (simp flip: of_int_add)
  then show ?thesis using True by (simp add: roundDouble_def)
next
  case False
  from assms have "\<bar>a + k\<bar> < 2 ^ 53" by simp
  from roundDouble_of_int [OF False this] show ?thesis by simp
qed

lemma sum_floor_nonneg:
  "\<forall>x\<in>set xs. wholeAmount x \<Longrightarrow> 0 \<le> (\<Sum>x\<leftarrow>xs. \<lfloor>valueOf x\<rfloor>)"
  by (induction xs) (auto dest: wholeAmount_Fin)

lemma foldl_js_add_whole:
  "\<forall>x\<in>set xs. wholeAmount x \<Longrightarrow> 0 \<le> a \<Longrightarrow> a + (\<Sum>x\<leftarrow>xs. \<lfloor>valueOf x\<rfloor>) < 2 ^ 53 \<Longrightarrow>
   foldl js_add (Fin (real_of_int a)) xs = Fin (real_of_int (a + (\<Sum>x\<leftarrow>xs. \<lfloor>valueOf x\<rfloor>)))"
proof (induction xs arbitrary: a)
  case Nil
  then show ?case by simp
next
  case (Cons x xs)
  from Cons.prems(1) have w: "wholeAmount x" and ws: "\<forall>x\<in>set xs. wholeAmount x" by simp_all
  define k where "k = \<lfloor>valueOf x\<rfloor>"
  from wholeAmount_Fin [OF w] have x: "x = Fin (real_of_int k)" and k0: "0 \<le> k"
    by (simp_all add: k_def)
  have rest: "0 \<le> (\<Sum>x\<leftarrow>xs. \<lfloor>valueOf x\<rfloor>)" using ws by (rule sum_floor_nonneg)
  from Cons.prems(3) have bound: "a + k + (\<Sum>x\<leftarrow>xs. \<lfloor>valueOf x\<rfloor>) < 2 ^ 53"
    by (simp add: k_def add.assoc)
  with rest have small: "a + k < 2 ^ 53" by simp
  have step: "js_add (Fin (real_of_int a)) x = Fin (real_of_int (a + k))"
    unfolding x using Cons.prems(2) k0 small by (rule js_add_whole)
  have "0 \<le> a + k" using Cons.prems(2) k0 by simp
  from Cons.IH [OF ws this bound]
  show ?case by (simp add: step k_def add.assoc)
qed

lemma sum_whole_value:
  "\<forall>x\<in>set xs. wholeAmount x \<Longrightarrow>
   (\<Sum>x\<leftarrow>xs. valueOf x) = real_of_int (\<Sum>x\<leftarrow>xs. \<lfloor>valueOf x\<rfloor>)"
proof (induction xs)
  case Nil
  then show ?case by simp
next
  case (Cons x xs)
  from Cons.prems have "wholeAmount x" by simp
  from wholeAmount_Fin [OF this] have "valueOf x = real_of_int \<lfloor>valueOf x\<rfloor>"
    by (cases x) simp_all
  with Cons show ?case by simp
qed

lemma total_whole:
  assumes "\<forall>e\<in>set es. wholeAmount (amount e)"
    and "(\<Sum>e\<leftarrow>es. valueOf (amount e)) < 2 ^ 53"
  shows "foldl js_add (Fin 0) (map amount es) = Fin (\<Sum>e\<leftarrow>es. valueOf (amount e))"
proof -
  from assms(1) have w: "\<forall>x\<in>set (map amount es). wholeAmount x" by simp
  have v: "(\<Sum>e\<leftarrow>es. valueOf (amount e)) =
      real_of_int (\<Sum>x\<leftarrow>map amount es. \<lfloor>valueOf x\<rfloor>)"
    using sum_whole_value [OF w] by (simp add: comp_def)
  with assms(2) have "real_of_int (\<Sum>x\<leftarrow>map amount es. \<lfloor>valueOf x\<rfloor>) < real_of_int (2 ^ 53)"
    by simp
  then have "0 + (\<Sum>x\<leftarrow>map amount es. \<lfloor>valueOf x\<rfloor>) < 2 ^ 53"
    by (simp only: of_int_less_iff add_0)
  from foldl_js_add_whole [OF w _ this] show ?thesis by (simp add: v)
qed


lemma js_div_zero_not_finite:
  "isZero b \<Longrightarrow> \<not> isFinite (js_mul (js_div a b) (Fin 100))"
  by (cases a; cases b) (simp_all add: js_mul_def js_div_def signedInfinity_def)

lemma execute_total:
  "totalSpent (GetSpendingSummaryUseCase_execute es ls u m y) =
     foldl js_add (Fin 0) (map amount (expense_findByMonth es u m y))"
  by (simp add: GetSpendingSummaryUseCase_execute_def Let_def foldl_map split: option.split)

lemma execute_Some:
  assumes "limit_findByUserAndMonth ls u m y = Some limit"
  shows "GetSpendingSummaryUseCase_execute es ls u m y =
     \<lparr> totalSpent = foldl js_add (Fin 0) (map amount (expense_findByMonth es u m y)),
       spendingLimit = Some (monthlyLimit limit),
       remainingBudget = Some (js_sub (monthlyLimit limit)
          (foldl js_add (Fin 0) (map amount (expense_findByMonth es u m y)))),
       percentageUsed = Some (js_mul (js_div
          (foldl js_add (Fin 0) (map amount (expense_findByMonth es u m y)))
          (monthlyLimit limit)) (Fin 100)) \<rparr>"
  using assms by (simp add: GetSpendingSummaryUseCase_execute_def Let_def foldl_map)

lemma execute_None:
  assumes "limit_findByUserAndMonth ls u m y = None"
  shows "GetSpendingSummaryUseCase_execute es ls u m y =
     \<lparr> totalSpent = foldl js_add (Fin 0) (map amount (expense_findByMonth es u m y)),
       spendingLimit = None, remainingBudget = None, percentageUsed = None \<rparr>"
  using assms by (simp add: GetSpendingSummaryUseCase_execute_def Let_def foldl_map)

text \<open>The arithmetic of the scenario: 300 + 300, 1000 - 600, (600 / 1000) * 100, and an overspend.\<close>

lemma sum_300_300: "foldl js_add (Fin 0) [Fin 300, Fin 300] = Fin 600"
  by (simp add: roundDouble_numeral)



lemma percent_600_1000: "js_mul (js_div (Fin 600) (Fin 1000)) (Fin 100) = Fin 60"
proof -
  have "roundDouble (600 / 1000) = Fin (of_int 5404319552844595 * 2 powi (- 1 - 52))"
  proof (rule roundDouble_pos)
    show "binade 1100 (600 / 1000) = - 1" by (simp add: binade_numeral)
    show "roundHalfEven (600 / 1000 / 2 powi (- 1 - 52)) = 5404319552844595"
      by (simp add: roundHalfEven_def Let_def)
  qed simp_all
  then have q: "js_div (Fin 600) (Fin 1000) = Fin (5404319552844595 / 9007199254740992)"
    by (simp add: js_div_def)
  have "js_mul (Fin (5404319552844595 / 9007199254740992)) (Fin 100) =
      roundDouble (5404319552844595 / 9007199254740992 * 100)"
    by (simp add: js_mul_def)
  also have "\<dots> = Fin (of_int 8444249301319680 * 2 powi (5 - 52))"
  proof (rule roundDouble_pos)
    show "binade 1100 (5404319552844595 / 9007199254740992 * 100) = 5"
      by (simp add: binade_numeral)
    show "roundHalfEven (5404319552844595 / 9007199254740992 * 100 / 2 powi (5 - 52)) =
        8444249301319680"
      by (simp add: roundHalfEven_def Let_def)
  qed simp_all
  finally show ?thesis by (simp add: q)
qed


lemma found_january:
  "expense_findByMonth [foodA, bus, transportB] ''user-123'' (Fin 1) (Fin 2025) =
     [foodA, transportB]"
  using findByMonth_filter [of "[foodA, bus, transportB]" "''user-123''" 1 2025]
  by (simp add: foodA_def bus_def transportB_def fallsInMonth_def)

lemma found_january_2024:
  "expense_findByMonth [foodA, bus, transportB] ''user-123'' (Fin 1) (Fin 2024) = []"
  using findByMonth_filter [of "[foodA, bus, transportB]" "''user-123''" 1 2024]
  by (simp add: foodA_def bus_def transportB_def fallsInMonth_def)

lemma amounts_300: "amount foodA = Fin 300" "amount transportB = Fin 300"
  by (simp_all add: foodA_def transportB_def)

lemma limit_found_single:
  "limit_findByUserAndMonth [newLimit i (january2025 a)] ''user-123'' (Fin 1) (Fin 2025) =
     Some (newLimit i (january2025 a))"
  by (simp add: limit_findByUserAndMonth_def newLimit_def january2025_def js_strict_eq_def)

lemma limit_found_first:
  "limit_findByUserAndMonth [newLimit i (january2025 a), newLimit j (january2025 b)]
     ''user-123'' (Fin 1) (Fin 2025) = Some (newLimit i (january2025 a))"
  by (simp add: limit_findByUserAndMonth_def newLimit_def january2025_def js_strict_eq_def)

lemma monthlyLimit_new: "monthlyLimit (newLimit i (january2025 a)) = a"
  by (simp add: newLimit_def january2025_def)



text \<open>
  Claim C2. For every content of the two repositories and every query for which
  no spending limit is found, the summary is exactly
  \<open>{ totalSpent, spendingLimit: null, remainingBudget: null, percentageUsed: null }\<close>
  with \<open>totalSpent\<close> the sum of the amounts of the expenses of the month, added
  from the left starting at 0 (the exact sum when the amounts are whole and the
  sum is below \<open>2^53\<close>).
\<close>

theorem summary_without_limit:
  assumes "limit_findByUserAndMonth ls u m y = None"
  shows "GetSpendingSummaryUseCase_execute es ls u m y =
      \<lparr> totalSpent = foldl js_add (Fin 0) (map amount (expense_findByMonth es u m y)),
        spendingLimit = None, remainingBudget = None, percentageUsed = None \<rparr> \<and>
    ((\<forall>e\<in>set (expense_findByMonth es u m y). wholeAmount (amount e)) \<and>
     (\<Sum>e\<leftarrow>expense_findByMonth es u m y. valueOf (amount e)) < 2 ^ 53 \<longrightarrow>
       totalSpent (GetSpendingSummaryUseCase_execute es ls u m y) =
         Fin (\<Sum>e\<leftarrow>expense_findByMonth es u m y. valueOf (amount e)))"
  using execute_None [OF assms] by (simp add: total_whole)

theorem summary_without_limit_witness:
  "GetSpendingSummaryUseCase_execute [foodA, bus, transportB]
      [newLimit ''a'' (january2025 (Fin 1000))] ''user-123'' (Fin 1) (Fin 2024) =
     \<lparr> totalSpent = Fin 0, spendingLimit = None, remainingBudget = None, percentageUsed = None \<rparr> \<and>
   GetSpendingSummaryUseCase_execute [foodA, bus, transportB] [] ''user-123'' (Fin 1) (Fin 2025) =
     \<lparr> totalSpent = Fin 600, spendingLimit = None, remainingBudget = None, percentageUsed = None \<rparr>"
proof -
  have n1: "limit_findByUserAndMonth [newLimit ''a'' (january2025 (Fin 1000))]
      ''user-123'' (Fin 1) (Fin 2024) = None"
    by (simp add: limit_findByUserAndMonth_def newLimit_def january2025_def js_strict_eq_def)
  have n2: "limit_findByUserAndMonth [] ''user-123'' (Fin 1) (Fin 2025) = None"
    by (simp add: limit_findByUserAndMonth_def)
  from summary_without_limit [OF n1, of "[foodA, bus, transportB]"]
  have a: "GetSpendingSummaryUseCase_execute [foodA, bus, transportB]
      [newLimit ''a'' (january2025 (Fin 1000))] ''user-123'' (Fin 1) (Fin 2024) =
     \<lparr> totalSpent = Fin 0, spendingLimit = None, remainingBudget = None, percentageUsed = None \<rparr>"
    by (simp add: found_january_2024)
  from summary_without_limit [OF n2, of "[foodA, bus, transportB]"]
  have b: "GetSpendingSummaryUseCase_execute [foodA, bus, transportB] [] ''user-123'' (Fin 1) (Fin 2025) =
     \<lparr> totalSpent = Fin 600, spendingLimit = None, remainingBudget = None, percentageUsed = None \<rparr>"
    by (simp only: found_january list.map amounts_300 sum_300_300)
  from a b show ?thesis by blast
qed

text \<open>
  Claim C5, amended. When the limit that \<open>findByUserAndMonth\<close> returns for the
  query (the first record matching the key) has \<open>monthlyLimit\<close> zero, the use case
  still returns a summary: \<open>spendingLimit\<close> is that zero, and \<open>percentageUsed\<close>
  is the result of the division by zero times 100, which is an infinity or
  not-a-number and never a finite number.
\<close>

theorem summary_zero_limit:
  assumes "limit_findByUserAndMonth ls u m y = Some limit"
    and "isZero (monthlyLimit limit)"
  shows "spendingLimit (GetSpendingSummaryUseCase_execute es ls u m y) = Some (monthlyLimit limit) \<and>
    (\<exists>p. percentageUsed (GetSpendingSummaryUseCase_execute es ls u m y) = Some p \<and>
       p = js_mul (js_div (totalSpent (GetSpendingSummaryUseCase_execute es ls u m y))
             (monthlyLimit limit)) (Fin 100) \<and>
       \<not> isFinite p)"
  using execute_Some [OF assms(1)] js_div_zero_not_finite [OF assms(2)] by simp

theorem summary_zero_limit_witness:
  "percentageUsed (GetSpendingSummaryUseCase_execute [foodA, bus, transportB]
      [newLimit ''a'' (january2025 (Fin 0))] ''user-123'' (Fin 1) (Fin 2025)) = Some Infinity \<and>
   percentageUsed (GetSpendingSummaryUseCase_execute []
      [newLimit ''a'' (january2025 (Fin 0))] ''user-123'' (Fin 1) (Fin 2025)) = Some NaN \<and>
   percentageUsed (GetSpendingSummaryUseCase_execute [foodA, bus, transportB]
      [newLimit ''a'' (january2025 NegZero)] ''user-123'' (Fin 1) (Fin 2025)) = Some NegInfinity"
proof -
  have e: "expense_findByMonth [] ''user-123'' (Fin 1) (Fin 2025) = []"
    by (simp add: expense_findByMonth_def)
  have z0: "isZero (monthlyLimit (newLimit ''a'' (january2025 (Fin 0))))"
    and zn: "isZero (monthlyLimit (newLimit ''a'' (january2025 NegZero)))"
    by (simp_all add: monthlyLimit_new)
  have t: "totalSpent (GetSpendingSummaryUseCase_execute [foodA, bus, transportB] ls
      ''user-123'' (Fin 1) (Fin 2025)) = Fin 600" for ls
    by (simp only: execute_total found_january list.map amounts_300 sum_300_300)
  have t0: "totalSpent (GetSpendingSummaryUseCase_execute [] ls
      ''user-123'' (Fin 1) (Fin 2025)) = Fin 0" for ls
    by (simp add: execute_total e)
  from summary_zero_limit [OF limit_found_single z0, of "[foodA, bus, transportB]"]
  have a: "percentageUsed (GetSpendingSummaryUseCase_execute [foodA, bus, transportB]
      [newLimit ''a'' (january2025 (Fin 0))] ''user-123'' (Fin 1) (Fin 2025)) = Some Infinity"
    by (simp add: t monthlyLimit_new js_div_def js_mul_def signedInfinity_def)
  from summary_zero_limit [OF limit_found_single z0, of "[]"]
  have b: "percentageUsed (GetSpendingSummaryUseCase_execute []
      [newLimit ''a'' (january2025 (Fin 0))] ''user-123'' (Fin 1) (Fin 2025)) = Some NaN"
    by (simp add: t0 monthlyLimit_new js_div_def js_mul_def)
  from summary_zero_limit [OF limit_found_single zn, of "[foodA, bus, transportB]"]
  have c: "percentageUsed (GetSpendingSummaryUseCase_execute [foodA, bus, transportB]
      [newLimit ''a'' (january2025 NegZero)] ''user-123'' (Fin 1) (Fin 2025)) = Some NegInfinity"
    by (simp add: t monthlyLimit_new js_div_def js_mul_def signedInfinity_def)
  from a b c show ?thesis by blast
qed

text \<open>
  A zero limit that merely exists for the key does not have this effect: after a
  limit of 1000 and then a limit of 0 were created for the same key, the zero
  limit matches the query, and \<open>percentageUsed\<close> is the finite 60 computed from
  the first limit.
\<close>

theorem zero_limit_behind_another:
  "snd (limit_create ''b'' (snd (limit_create ''a'' [] (january2025 (Fin 1000))))
      (january2025 (Fin 0))) =
     [newLimit ''a'' (january2025 (Fin 1000)), newLimit ''b'' (january2025 (Fin 0))] \<and>
   limitMatches (newLimit ''b'' (january2025 (Fin 0))) ''user-123'' (Fin 1) (Fin 2025) \<and>
   monthlyLimit (newLimit ''b'' (january2025 (Fin 0))) = Fin 0 \<and>
   percentageUsed (GetSpendingSummaryUseCase_execute [foodA, bus, transportB]
      [newLimit ''a'' (january2025 (Fin 1000)), newLimit ''b'' (january2025 (Fin 0))]
      ''user-123'' (Fin 1) (Fin 2025)) = Some (Fin 60)"
proof -
  have s: "snd (limit_create ''b'' (snd (limit_create ''a'' [] (january2025 (Fin 1000))))
      (january2025 (Fin 0))) =
     [newLimit ''a'' (january2025 (Fin 1000)), newLimit ''b'' (january2025 (Fin 0))]"
    by (simp add: limit_create_def newLimit_def Let_def)
  have m: "limitMatches (newLimit ''b'' (january2025 (Fin 0))) ''user-123'' (Fin 1) (Fin 2025)"
    by (simp add: limitMatches_def newLimit_def january2025_def js_strict_eq_def)
  have p: "percentageUsed (GetSpendingSummaryUseCase_execute [foodA, bus, transportB]
      [newLimit ''a'' (january2025 (Fin 1000)), newLimit ''b'' (january2025 (Fin 0))]
      ''user-123'' (Fin 1) (Fin 2025)) = Some (Fin 60)"
    unfolding execute_Some [OF limit_found_first]
    by (simp only: SpendingSummary.simps found_january list.map amounts_300 sum_300_300
        monthlyLimit_new percent_600_1000)
  from s m p show ?thesis by (simp add: monthlyLimit_new)
qed

section \<open>The scenario through the controllers\<close>

lemma serve_length: "length (fst (serve g nd app rs)) = length rs"
  by (induction rs arbitrary: app) (simp_all add: split_beta del: handle.simps)










end
